theory Spec2Isabelle
  imports Main "HOL-Library.Word" "HOL-Library.Finite_Map"
begin

unbundle bit_operations_syntax

section \<open>Data of \<^verbatim>\<open>cmd/report.go\<close>\<close>

subsection \<open>float64, as far as the file looks at it\<close>

text \<open>
  A \<^verbatim>\<open>float64\<close> is kept as its 64 bits (IEEE 754 binary64: one sign bit, eleven
  exponent bits, fifty-two fraction bits). The file never computes with its rates: it
  copies them, tests them with \<^verbatim>\<open>math.IsNaN\<close> and overwrites them with the
  constant \<^verbatim>\<open>-1\<close>. \<^verbatim>\<open>math.IsNaN(f)\<close> is \<^verbatim>\<open>f != f\<close>, which holds exactly
  for the bit patterns with all exponent bits set and a fraction that is not zero;
  \<^verbatim>\<open>math.IsInf(f, 0)\<close> holds for the two patterns with all exponent bits set and a
  zero fraction.
\<close>

type_synonym float64 = "64 word"

definition exponent_bits :: "float64 \<Rightarrow> 64 word" where
  "exponent_bits f = drop_bit 52 f AND 0x7FF"

definition fraction_bits :: "float64 \<Rightarrow> 64 word" where
  "fraction_bits f = f AND 0xFFFFFFFFFFFFF"

definition IsNaN :: "float64 \<Rightarrow> bool" where
  "IsNaN f = (exponent_bits f = 0x7FF \<and> fraction_bits f \<noteq> 0)"

definition IsInf :: "float64 \<Rightarrow> bool" where
  "IsInf f = (exponent_bits f = 0x7FF \<and> fraction_bits f = 0)"

text \<open>The constant \<^verbatim>\<open>-1\<close>, and the values \<^verbatim>\<open>math.Inf(1)\<close>, \<^verbatim>\<open>math.Inf(-1)\<close>,
  \<^verbatim>\<open>math.NaN()\<close> and \<^verbatim>\<open>0.5\<close> used in the examples.\<close>

definition minus_one :: float64 where
  "minus_one = 0xBFF0000000000000"

definition pos_Inf :: float64 where
  "pos_Inf = 0x7FF0000000000000"

definition neg_Inf :: float64 where
  "neg_Inf = 0xFFF0000000000000"

definition quiet_NaN :: float64 where
  "quiet_NaN = 0x7FF8000000000001"

definition one_half :: float64 where
  "one_half = 0x3FE0000000000000"

subsection \<open>The report\<close>

text \<open>
  Of a \<^verbatim>\<open>time.Time\<close> the file uses \<^verbatim>\<open>Unix()\<close>, the seconds since the epoch, and
  hands the value to the encoder. \<^verbatim>\<open>time.Duration\<close> is an \<^verbatim>\<open>int64\<close> of
  nanoseconds. \<^verbatim>\<open>int\<close> and \<^verbatim>\<open>uint\<close> are 64 bits wide; a signed field is read
  with \<open>sint\<close>, an unsigned one with \<open>uint\<close>. A Go map value is
  \<^verbatim>\<open>nil\<close> (\<open>None\<close>) or a finite map.
\<close>

record Time =
  Unix :: "64 word"
  Nanosecond :: nat

record IntervalReport =
  PID :: "64 word"
  Role :: string
  InitTimestamp :: Time
  Timestamp :: Time
  Age :: "64 word"
  WindowRate :: float64
  StandardDev :: float64
  LifetimeRate :: float64
  CurrentRate :: float64
  TimesRestated :: "64 word"
  VirtMemoryBytes :: "64 word"
  RSSBytes :: "64 word"
  RateHistogram :: "(string, 64 word) fmap option"

subsection \<open>Pointers, the store and the effects\<close>

text \<open>
  The store is \<^verbatim>\<open>map[string]*IntervalReport\<close>: it holds pointers, and
  \<^verbatim>\<open>safeIntervalReport\<close> allocates a second report and writes to it. So the
  reports live in a heap, a pointer is \<^verbatim>\<open>nil\<close> (\<open>None\<close>) or an address, and
  \<^verbatim>\<open>&IntervalReport{...}\<close> takes the next free address \<open>brk\<close>. The global
  \<^verbatim>\<open>metricsReport\<close> is the field \<open>m\<close>; what is written to \<^verbatim>\<open>os.Stdout\<close> and to
  the logger is collected in \<open>stdout\<close> and \<open>logged\<close>. \<^verbatim>\<open>Insert\<close> is the only
  writer of the map and cannot store a nil pointer, so the map holds addresses. The
  mutex is not modelled: one call runs at a time. \<^verbatim>\<open>errNoInfoForRole\<close> is declared
  in another file of the package; the error of \<^verbatim>\<open>All\<close> is named by its message.
\<close>

type_synonym addr = nat
type_synonym ptr = "addr option"

datatype error =
    errNoInfoForRole
  | zero_summaries_currently_available
  | UnsupportedValueError
  | panic_nil_dereference
  | panic_index_out_of_range

datatype json =
    JNull
  | JInt int
  | JFloat float64
  | JString string
  | JTime Time
  | JMap "(string, 64 word) fmap"
  | JArray "json list"
  | JObject "(string \<times> json) list"

datatype written = Payload json | Text string

record world =
  heap :: "addr \<Rightarrow> IntervalReport"
  brk :: addr
  m :: "(string, addr) fmap"
  stdout :: "written list"
  logged :: "error list"

text \<open>Go has no dangling pointers: every address the store holds is allocated.\<close>

definition wf :: "world \<Rightarrow> bool" where
  "wf w = (\<forall>role a. fmlookup (m w) role = Some a \<longrightarrow> a < brk w)"

definition new :: "world \<Rightarrow> IntervalReport \<Rightarrow> addr \<times> world" where
  "new w v = (brk w, w\<lparr>heap := (heap w)(brk w := v), brk := Suc (brk w)\<rparr>)"

section \<open>Summaries\<close>

text \<open>\<^verbatim>\<open>s.m[r.Role] = r\<close>; reading \<^verbatim>\<open>r.Role\<close> through a nil pointer panics.\<close>

definition Insert :: "world \<Rightarrow> ptr \<Rightarrow> (error + unit) \<times> world" where
  "Insert w r =
     (case r of
        None \<Rightarrow> (Inl panic_nil_dereference, w)
      | Some a \<Rightarrow> (Inr (), w\<lparr>m := fmupd (Role (heap w a)) a (m w)\<rparr>))"

definition Len :: "world \<Rightarrow> int" where
  "Len w = int (fcard (fmdom (m w)))"

definition Empty :: "world \<Rightarrow> bool" where
  "Empty w = (int (fcard (fmdom (m w))) = 0)"

definition findRole :: "world \<Rightarrow> string \<Rightarrow> ptr" where
  "findRole w role = (case fmlookup (m w) role of Some v \<Rightarrow> Some v | None \<Rightarrow> None)"

text \<open>The four conditional stores of \<^verbatim>\<open>safeIntervalReport\<close>, each to one field of the
  report at \<open>p\<close>.\<close>

definition store_CurrentRate :: "world \<Rightarrow> addr \<Rightarrow> float64 \<Rightarrow> world" where
  "store_CurrentRate w p v = w\<lparr>heap := (heap w)(p := (heap w p)\<lparr>CurrentRate := v\<rparr>)\<rparr>"

definition store_LifetimeRate :: "world \<Rightarrow> addr \<Rightarrow> float64 \<Rightarrow> world" where
  "store_LifetimeRate w p v = w\<lparr>heap := (heap w)(p := (heap w p)\<lparr>LifetimeRate := v\<rparr>)\<rparr>"

definition store_StandardDev :: "world \<Rightarrow> addr \<Rightarrow> float64 \<Rightarrow> world" where
  "store_StandardDev w p v = w\<lparr>heap := (heap w)(p := (heap w p)\<lparr>StandardDev := v\<rparr>)\<rparr>"

definition store_WindowRate :: "world \<Rightarrow> addr \<Rightarrow> float64 \<Rightarrow> world" where
  "store_WindowRate w p v = w\<lparr>heap := (heap w)(p := (heap w p)\<lparr>WindowRate := v\<rparr>)\<rparr>"

definition safeIntervalReport :: "world \<Rightarrow> string \<Rightarrow> ptr \<times> world" where
  "safeIntervalReport w role =
     (case findRole w role of
        None \<Rightarrow> (None, w)
      | Some rep \<Rightarrow>
          (let (safeRep, w0) = new w
                 \<lparr>PID = PID (heap w rep),
                  Role = Role (heap w rep),
                  InitTimestamp = InitTimestamp (heap w rep),
                  Timestamp = Timestamp (heap w rep),
                  Age = Age (heap w rep),
                  WindowRate = WindowRate (heap w rep),
                  StandardDev = StandardDev (heap w rep),
                  LifetimeRate = LifetimeRate (heap w rep),
                  CurrentRate = CurrentRate (heap w rep),
                  TimesRestated = TimesRestated (heap w rep),
                  VirtMemoryBytes = VirtMemoryBytes (heap w rep),
                  RSSBytes = RSSBytes (heap w rep),
                  RateHistogram = RateHistogram (heap w rep)\<rparr>;
               w1 = (if IsNaN (CurrentRate (heap w0 safeRep))
                     then store_CurrentRate w0 safeRep minus_one else w0);
               w2 = (if IsNaN (LifetimeRate (heap w1 safeRep))
                     then store_LifetimeRate w1 safeRep minus_one else w1);
               w3 = (if IsNaN (StandardDev (heap w2 safeRep))
                     then store_StandardDev w2 safeRep minus_one else w2);
               w4 = (if IsNaN (WindowRate (heap w3 safeRep))
                     then store_WindowRate w3 safeRep minus_one else w3)
           in (Some safeRep, w4)))"

text \<open>
  \<^verbatim>\<open>encoding/json\<close> is not part of the repository, so \<^verbatim>\<open>json.Marshal\<close> is a
  parameter \<open>marshal\<close> of the functions that call it. It reads the reports behind the
  pointers it is given and returns a document or an error; it writes nothing. A
  function that returns \<^verbatim>\<open>([]byte, error)\<close> returns a sum here: with an error there is
  no payload (\<^verbatim>\<open>RoleToJSON\<close> returns the empty \<^verbatim>\<open>[]byte{}\<close> beside its error).
\<close>

datatype marshal_arg =
    Pointer "IntervalReport option"
  | Slice "IntervalReport option list"

type_synonym marshaller = "marshal_arg \<Rightarrow> error + json"

definition load :: "world \<Rightarrow> ptr \<Rightarrow> IntervalReport option" where
  "load w p = (case p of None \<Rightarrow> None | Some a \<Rightarrow> Some (heap w a))"

definition RoleToJSON :: "marshaller \<Rightarrow> world \<Rightarrow> string \<Rightarrow> (error + json) \<times> world" where
  "RoleToJSON marshal w role =
     (case safeIntervalReport w role of
        (None, w') \<Rightarrow> (Inl errNoInfoForRole, w')
      | (Some rep, w') \<Rightarrow> (marshal (Pointer (load w' (Some rep))), w'))"

text \<open>
  \<^verbatim>\<open>for role := range s.m\<close> visits every key once, in an order Go does not fix. The
  order is the argument \<open>roles\<close>; the theorems about whole-store reads assume of it
  only that it lists the keys of the map once each.
\<close>

definition enumerates :: "string list \<Rightarrow> world \<Rightarrow> bool" where
  "enumerates roles w = (distinct roles \<and> fset_of_list roles = fmdom (m w))"

fun ToJSON_range :: "world \<Rightarrow> string list \<Rightarrow> ptr list \<Rightarrow> ptr list \<times> world" where
  "ToJSON_range w [] l = (l, w)"
| "ToJSON_range w (role # roles) l =
     (case safeIntervalReport w role of (p, w') \<Rightarrow> ToJSON_range w' roles (l @ [p]))"

definition ToJSON :: "marshaller \<Rightarrow> world \<Rightarrow> string list \<Rightarrow> (error + json) \<times> world" where
  "ToJSON marshal w roles =
     (case ToJSON_range w roles [] of (l, w') \<Rightarrow> (marshal (Slice (map (load w') l)), w'))"

text \<open>\<^verbatim>\<open>All\<close> fills a slice of \<^verbatim>\<open>s.Len()\<close> nil pointers by index and prints each role
  to the standard output; an index past the end of the slice panics. It is
  \<open>Summaries_All\<close> here, \<open>All\<close> being the universal quantifier of HOL.\<close>

definition newline :: char where
  "newline = CHR 0x0A"

definition Printf_role :: "world \<Rightarrow> string \<Rightarrow> world" where
  "Printf_role w role = w\<lparr>stdout := stdout w @ [Text (''role => '' @ role @ [newline])]\<rparr>"

fun All_range :: "world \<Rightarrow> string list \<Rightarrow> ptr list \<Rightarrow> nat \<Rightarrow> (error + ptr list) \<times> world" where
  "All_range w [] l c = (Inr l, w)"
| "All_range w (role # roles) l c =
     (case safeIntervalReport w role of
        (p, w') \<Rightarrow>
          if c < length l
          then All_range (Printf_role w' role) roles (l[c := p]) (Suc c)
          else (Inl panic_index_out_of_range, w'))"

definition Summaries_All :: "world \<Rightarrow> string list \<Rightarrow> (error + ptr list) \<times> world" where
  "Summaries_All w roles =
     (if Len w = 0 then (Inl zero_summaries_currently_available, w)
      else All_range w roles (replicate (nat (Len w)) None) 0)"

section \<open>The text exposition\<close>

text \<open>
  \<^verbatim>\<open>%d\<close> prints a decimal numeral, with a minus sign for a negative value, and
  \<^verbatim>\<open>%s\<close> the string itself. \<^verbatim>\<open>int(i.Age.Seconds())\<close> goes through a
  \<^verbatim>\<open>float64\<close>; that conversion is the parameter \<open>seconds\<close>.
\<close>

definition digit :: "nat \<Rightarrow> char" where
  "digit n = ''0123456789'' ! n"

fun decimal :: "nat \<Rightarrow> string" where
  "decimal n = (if n < 10 then [digit n] else decimal (n div 10) @ [digit (n mod 10)])"

definition fmt_d :: "int \<Rightarrow> string" where
  "fmt_d i = (if i < 0 then CHR ''-'' # decimal (nat (- i)) else decimal (nat i))"

definition quote :: char where
  "quote = CHR 0x22"

definition Sprintf_metric :: "string \<Rightarrow> string \<Rightarrow> int \<Rightarrow> string" where
  "Sprintf_metric name role d = name @ ''{role='' @ [quote] @ role @ [quote] @ ''} '' @ fmt_d d"

definition String :: "(64 word \<Rightarrow> int) \<Rightarrow> IntervalReport \<Rightarrow> string" where
  "String seconds i =
     (let role = Role i;
          pid = Sprintf_metric ''bro_pid'' role (sint (PID i));
          first_seen = Sprintf_metric ''bro_process_start_seconds'' role (sint (Unix (Timestamp i)));
          age = Sprintf_metric ''bro_process_age_seconds'' role (seconds (Age i));
          vmem = Sprintf_metric ''bro_virtual_memory_bytes'' role (uint (VirtMemoryBytes i))
      in pid @ [newline] @ first_seen @ [newline] @ age @ [newline] @ vmem @ [newline])"

section \<open>The reporting loop\<close>

text \<open>
  One pass through the \<^verbatim>\<open>select\<close> of \<^verbatim>\<open>startIntervalReport\<close> takes the case that is
  ready: a value received from the channel (a nil pointer, or a pointer to a report the
  sender has just allocated, whose allocation is part of the event), a tick of the timer
  (with the order in which the map is ranged over on that tick), or neither, where the
  loop sleeps for a second. The loop is run over the list of the cases taken so far: it
  has returned, or it is still running.
\<close>

datatype event = Receive "IntervalReport option" | Tick "string list" | Idle

datatype status = Running | Returned | Panicked error

definition select_case :: "marshaller \<Rightarrow> world \<Rightarrow> event \<Rightarrow> status \<times> world" where
  "select_case marshal w e =
     (case e of
        Receive None \<Rightarrow> (Returned, w)
      | Receive (Some r) \<Rightarrow>
          (case new w r of
             (v, w0) \<Rightarrow>
               (case Insert w0 (Some v) of
                  (Inl err, w1) \<Rightarrow> (Panicked err, w1)
                | (Inr _, w1) \<Rightarrow> (Running, w1)))
      | Tick roles \<Rightarrow>
          (if \<not> Empty w
           then (case ToJSON marshal w roles of
                   (Inl err, w1) \<Rightarrow> (Running, w1\<lparr>logged := logged w1 @ [err]\<rparr>)
                 | (Inr data, w1) \<Rightarrow> (Running, w1\<lparr>stdout := stdout w1 @ [Payload data]\<rparr>))
           else (Running, w))
      | Idle \<Rightarrow> (Running, w))"

fun startIntervalReport :: "marshaller \<Rightarrow> world \<Rightarrow> event list \<Rightarrow> status \<times> world" where
  "startIntervalReport marshal w [] = (Running, w)"
| "startIntervalReport marshal w (e # es) =
     (case select_case marshal w e of
        (Running, w') \<Rightarrow> startIntervalReport marshal w' es
      | (Returned, w') \<Rightarrow> (Returned, w')
      | (Panicked err, w') \<Rightarrow> (Panicked err, w'))"

section \<open>The encoder of the library\<close>

text \<open>
  For the examples, the encoder as the documentation of \<^verbatim>\<open>encoding/json\<close> gives it:
  a struct is an object with one member per field, named by the field's tag and in the
  order of the fields; a nil pointer and a nil map are \<^verbatim>\<open>null\<close>; a slice is an
  array; a \<^verbatim>\<open>float64\<close> that is NaN or infinite makes the whole call fail with an
  \<^verbatim>\<open>UnsupportedValueError\<close>. The document is kept as a tree: the text of a number, of
  a time and of a map is not produced.
\<close>

definition marshal_float64 :: "float64 \<Rightarrow> error + json" where
  "marshal_float64 f = (if IsNaN f \<or> IsInf f then Inl UnsupportedValueError else Inr (JFloat f))"

definition marshal_IntervalReport :: "IntervalReport \<Rightarrow> error + json" where
  "marshal_IntervalReport r =
     (case marshal_float64 (WindowRate r) of Inl e \<Rightarrow> Inl e | Inr wr \<Rightarrow>
     (case marshal_float64 (StandardDev r) of Inl e \<Rightarrow> Inl e | Inr sd \<Rightarrow>
     (case marshal_float64 (LifetimeRate r) of Inl e \<Rightarrow> Inl e | Inr lr \<Rightarrow>
     (case marshal_float64 (CurrentRate r) of Inl e \<Rightarrow> Inl e | Inr cr \<Rightarrow>
        Inr (JObject
          [(''pid'', JInt (sint (PID r))),
           (''role'', JString (Role r)),
           (''first_seen'', JTime (InitTimestamp r)),
           (''last_seen'', JTime (Timestamp r)),
           (''age'', JInt (sint (Age r))),
           (''window_rate'', wr),
           (''standard_dev'', sd),
           (''lifetime_rate'', lr),
           (''current_rate'', cr),
           (''times_restarted'', JInt (uint (TimesRestated r))),
           (''virtual_memory_bytes'', JInt (uint (VirtMemoryBytes r))),
           (''rss_bytes'', JInt (sint (RSSBytes r))),
           (''rate_histogram'',
              (case RateHistogram r of None \<Rightarrow> JNull | Some h \<Rightarrow> JMap h))])))))"

definition marshal_pointer :: "IntervalReport option \<Rightarrow> error + json" where
  "marshal_pointer p = (case p of None \<Rightarrow> Inr JNull | Some r \<Rightarrow> marshal_IntervalReport r)"

fun marshal_slice :: "IntervalReport option list \<Rightarrow> error + json list" where
  "marshal_slice [] = Inr []"
| "marshal_slice (p # ps) =
     (case marshal_pointer p of
        Inl e \<Rightarrow> Inl e
      | Inr j \<Rightarrow> (case marshal_slice ps of Inl e \<Rightarrow> Inl e | Inr js \<Rightarrow> Inr (j # js)))"

fun json_Marshal :: marshaller where
  "json_Marshal (Pointer p) = marshal_pointer p"
| "json_Marshal (Slice ps) =
     (case marshal_slice ps of Inl e \<Rightarrow> Inl e | Inr js \<Rightarrow> Inr (JArray js))"

section \<open>Notions used to state the properties\<close>

text \<open>What the copy holds, said in one piece: the stored report with each NaN rate
  replaced by \<open>-1\<close> and nothing else changed.\<close>

definition nan_to_minus_one :: "float64 \<Rightarrow> float64" where
  "nan_to_minus_one f = (if IsNaN f then minus_one else f)"

definition sanitized :: "IntervalReport \<Rightarrow> IntervalReport" where
  "sanitized r =
     r\<lparr>CurrentRate := nan_to_minus_one (CurrentRate r),
       LifetimeRate := nan_to_minus_one (LifetimeRate r),
       StandardDev := nan_to_minus_one (StandardDev r),
       WindowRate := nan_to_minus_one (WindowRate r)\<rparr>"

text \<open>What a reader inside the process gets for a role: \<^verbatim>\<open>findRole\<close>, then a read
  through the pointer.\<close>

definition stored :: "world \<Rightarrow> string \<Rightarrow> IntervalReport option" where
  "stored w role = load w (findRole w role)"

text \<open>What every read path does to the store and the heap: the map stays, the heap
  grows, and the reports allocated before are not written.\<close>

definition extends :: "world \<Rightarrow> world \<Rightarrow> bool" where
  "extends w w' =
     (m w' = m w \<and> brk w \<le> brk w' \<and> (\<forall>a. a < brk w \<longrightarrow> heap w' a = heap w a))"

text \<open>A pointer is nil or allocated.\<close>

definition valid :: "world \<Rightarrow> ptr \<Rightarrow> bool" where
  "valid w p = (case p of None \<Rightarrow> True | Some a \<Rightarrow> a < brk w)"

text \<open>The reports the loop has received before the end-of-stream marker, in the order of
  their receipt, and a view of the store after inserting reports one after the other,
  the last one of a role winning.\<close>

fun received :: "event list \<Rightarrow> IntervalReport list" where
  "received [] = []"
| "received (Receive None # es) = []"
| "received (Receive (Some r) # es) = r # received es"
| "received (Tick roles # es) = received es"
| "received (Idle # es) = received es"

definition insert_all ::
  "(string \<Rightarrow> IntervalReport option) \<Rightarrow> IntervalReport list \<Rightarrow> string \<Rightarrow> IntervalReport option" where
  "insert_all view rs = foldl (\<lambda>v r. v(Role r \<mapsto> r)) view rs"

section \<open>Example worlds\<close>

text \<open>A report whose window rate, standard deviation and current rate are NaN, as the
  first report of a role is; the same report for a second role with infinite rates;
  stores holding one or the other.\<close>

definition epoch :: Time where
  "epoch = \<lparr>Unix = 1700000000, Nanosecond = 0\<rparr>"

definition later :: Time where
  "later = \<lparr>Unix = 1700000600, Nanosecond = 0\<rparr>"

definition nan_report :: IntervalReport where
  "nan_report =
     \<lparr>PID = 4242, Role = ''worker'', InitTimestamp = epoch, Timestamp = later,
      Age = 600000000000, WindowRate = quiet_NaN, StandardDev = quiet_NaN,
      LifetimeRate = one_half, CurrentRate = quiet_NaN, TimesRestated = 0,
      VirtMemoryBytes = 1048576, RSSBytes = 4096, RateHistogram = None\<rparr>"

definition inf_report :: IntervalReport where
  "inf_report = nan_report\<lparr>Role := ''manager'', CurrentRate := pos_Inf, LifetimeRate := neg_Inf\<rparr>"

definition empty_world :: world where
  "empty_world = \<lparr>heap = (\<lambda>a. nan_report), brk = 0, m = fmempty, stdout = [], logged = []\<rparr>"

definition nan_world :: world where
  "nan_world = empty_world\<lparr>brk := 1, m := fmupd ''worker'' 0 fmempty\<rparr>"

definition inf_world :: world where
  "inf_world = empty_world\<lparr>heap := (\<lambda>a. inf_report), brk := 1, m := fmupd ''manager'' 0 fmempty\<rparr>"

text \<open>A later report of the first role, and a run of the loop: two reports, a tick and
  an idle pass in between, the later report, the marker, and a report after it.\<close>

definition second_report :: IntervalReport where
  "second_report = nan_report\<lparr>PID := 4243, CurrentRate := one_half\<rparr>"

definition example_events :: "event list" where
  "example_events =
     [Receive (Some nan_report), Tick [''worker''], Receive (Some inf_report), Idle,
      Receive (Some second_report), Receive None, Receive (Some nan_report)]"

section \<open>Basic facts\<close>

lemma findRole_lookup: "findRole w role = fmlookup (m w) role"
  by (simp add: findRole_def split: option.splits)

lemma safeIntervalReport_absent:
  "fmlookup (m w) role = None \<Longrightarrow> safeIntervalReport w role = (None, w)"
  by (simp add: safeIntervalReport_def findRole_lookup)

lemma new_copy:
  "new w \<lparr>PID = PID r, Role = Role r, InitTimestamp = InitTimestamp r, Timestamp = Timestamp r,
    Age = Age r, WindowRate = WindowRate r, StandardDev = StandardDev r,
    LifetimeRate = LifetimeRate r, CurrentRate = CurrentRate r,
    TimesRestated = TimesRestated r, VirtMemoryBytes = VirtMemoryBytes r,
    RSSBytes = RSSBytes r, RateHistogram = RateHistogram r\<rparr> = new w r"
  by (cases r) simp

lemma safeIntervalReport_found:
  assumes "fmlookup (m w) role = Some a"
  shows "safeIntervalReport w role =
           (Some (brk w), w\<lparr>heap := (heap w)(brk w := sanitized (heap w a)), brk := Suc (brk w)\<rparr>)"
proof -
  obtain h b mm so lg where w: "w = \<lparr>heap = h, brk = b, m = mm, stdout = so, logged = lg\<rparr>"
    by (cases w) simp
  show ?thesis
    unfolding safeIntervalReport_def findRole_lookup new_copy
    using assms
    by (cases "h a")
      (simp add: w new_def Let_def sanitized_def nan_to_minus_one_def store_CurrentRate_def
        store_LifetimeRate_def store_StandardDev_def store_WindowRate_def)
qed

subsection \<open>What the read paths leave alone\<close>

lemma extends_refl: "extends w w"
  by (simp add: extends_def)

lemma extends_trans: "extends w w1 \<Longrightarrow> extends w1 w2 \<Longrightarrow> extends w w2"
  by (auto simp add: extends_def)

lemma extends_wf: "extends w w' \<Longrightarrow> wf w \<Longrightarrow> wf w'"
  by (fastforce simp add: extends_def wf_def)

lemma extends_valid: "extends w w' \<Longrightarrow> valid w p \<Longrightarrow> valid w' p"
  by (auto simp add: extends_def valid_def split: option.splits)

lemma extends_load: "extends w w' \<Longrightarrow> valid w p \<Longrightarrow> load w' p = load w p"
  by (auto simp add: extends_def valid_def load_def split: option.splits)

lemma wf_valid_findRole: "wf w \<Longrightarrow> valid w (findRole w role)"
  by (auto simp add: wf_def valid_def findRole_lookup split: option.splits)

lemma extends_findRole: "extends w w' \<Longrightarrow> findRole w' role = findRole w role"
  by (simp add: extends_def findRole_lookup)

lemma extends_stored: "extends w w' \<Longrightarrow> wf w \<Longrightarrow> stored w' role = stored w role"
  by (simp add: stored_def extends_findRole extends_load wf_valid_findRole)

lemma stored_lookup:
  "stored w role = (case fmlookup (m w) role of None \<Rightarrow> None | Some a \<Rightarrow> Some (heap w a))"
  by (simp add: stored_def load_def findRole_lookup)

subsection \<open>The copy and the two serialization paths\<close>

lemma safeIntervalReport_step:
  assumes "safeIntervalReport w role = (p, w')"
  shows "extends w w' \<and> valid w' p \<and> load w' p = map_option sanitized (stored w role) \<and>
         stdout w' = stdout w \<and> logged w' = logged w"
proof (cases "fmlookup (m w) role")
  case None
  with assms show ?thesis
    by (simp add: safeIntervalReport_absent extends_refl valid_def load_def stored_lookup)
next
  case (Some a)
  with assms show ?thesis
    by (auto simp add: safeIntervalReport_found extends_def valid_def load_def stored_lookup)
qed

lemma ToJSON_range_spec:
  assumes "wf w" and "\<forall>p\<in>set l. valid w p" and "ToJSON_range w roles l = (l', w')"
  shows "extends w w' \<and> (\<forall>p\<in>set l'. valid w' p) \<and>
         map (load w') l' = map (load w) l @ map (\<lambda>role. map_option sanitized (stored w role)) roles \<and>
         stdout w' = stdout w \<and> logged w' = logged w"
  using assms
proof (induction roles arbitrary: w l)
  case Nil
  then show ?case by (simp add: extends_refl)
next
  case (Cons role roles)
  obtain p w1 where s: "safeIntervalReport w role = (p, w1)"
    by (cases "safeIntervalReport w role")
  from safeIntervalReport_step [OF s]
  have e: "extends w w1" and v: "valid w1 p"
    and ld: "load w1 p = map_option sanitized (stored w role)"
    and io: "stdout w1 = stdout w" "logged w1 = logged w" by simp_all
  have wf1: "wf w1" using e Cons.prems(1) by (rule extends_wf)
  have vl: "\<forall>q\<in>set (l @ [p]). valid w1 q"
    using Cons.prems(2) e v by (auto intro: extends_valid)
  from Cons.prems(3) s have r: "ToJSON_range w1 roles (l @ [p]) = (l', w')" by simp
  from Cons.IH [OF wf1 vl r]
  have e': "extends w1 w'" and v': "\<forall>p\<in>set l'. valid w' p"
    and eq: "map (load w') l' =
             map (load w1) (l @ [p]) @ map (\<lambda>role. map_option sanitized (stored w1 role)) roles"
    and io': "stdout w' = stdout w1" "logged w' = logged w1"
    by simp_all
  have "map (load w1) l = map (load w) l"
    using Cons.prems(2) e by (simp add: extends_load)
  moreover have "map (\<lambda>role. map_option sanitized (stored w1 role)) roles =
                 map (\<lambda>role. map_option sanitized (stored w role)) roles"
    using e Cons.prems(1) by (simp add: extends_stored)
  ultimately show ?case
    using e e' v' eq ld io io' by (simp add: extends_trans [OF e e'])
qed

lemma ToJSON_spec:
  assumes "wf w"
  shows "fst (ToJSON marshal w roles) =
           marshal (Slice (map (\<lambda>role. map_option sanitized (stored w role)) roles)) \<and>
         extends w (snd (ToJSON marshal w roles)) \<and>
         stdout (snd (ToJSON marshal w roles)) = stdout w \<and>
         logged (snd (ToJSON marshal w roles)) = logged w"
proof -
  obtain l' w' where r: "ToJSON_range w roles [] = (l', w')"
    by (cases "ToJSON_range w roles []")
  from ToJSON_range_spec [OF assms _ r] show ?thesis
    by (simp add: ToJSON_def r)
qed

lemma RoleToJSON_spec:
  "fst (RoleToJSON marshal w role) =
     (case stored w role of
        None \<Rightarrow> Inl errNoInfoForRole
      | Some r \<Rightarrow> marshal (Pointer (Some (sanitized r)))) \<and>
   extends w (snd (RoleToJSON marshal w role))"
proof -
  obtain p w' where s: "safeIntervalReport w role = (p, w')"
    by (cases "safeIntervalReport w role")
  from safeIntervalReport_step [OF s] show ?thesis
    by (cases p) (auto simp add: RoleToJSON_def s load_def split: option.splits)
qed


subsection \<open>The example reports\<close>

lemmas float_simps = IsNaN_def IsInf_def exponent_bits_def fraction_bits_def quiet_NaN_def
  pos_Inf_def neg_Inf_def minus_one_def one_half_def

lemma wf_nan_world: "wf nan_world"
  by (simp add: wf_def nan_world_def empty_world_def)

lemma stored_nan_world: "stored nan_world ''worker'' = Some nan_report"
  by (simp add: stored_lookup nan_world_def empty_world_def)

lemma sanitized_nan_report:
  "sanitized nan_report = nan_report\<lparr>WindowRate := minus_one, StandardDev := minus_one, CurrentRate := minus_one\<rparr>"
  by (simp add: sanitized_def nan_to_minus_one_def nan_report_def float_simps)


lemma not_IsNaN_minus_one: "\<not> IsNaN minus_one"
  by (simp add: float_simps)

lemma IsInf_not_IsNaN: "IsInf f \<Longrightarrow> \<not> IsNaN f"
  by (simp add: IsNaN_def IsInf_def)

subsection \<open>The order of a range\<close>

lemma enumerates_mem:
  assumes "enumerates roles w"
  shows "role \<in> set roles \<longleftrightarrow> findRole w role \<noteq> None"
proof -
  have "role \<in> set roles \<longleftrightarrow> role |\<in>| fset_of_list roles"
    by (simp only: fset_of_list_elem)
  also have "\<dots> \<longleftrightarrow> role |\<in>| fmdom (m w)"
    using assms by (simp only: enumerates_def)
  also have "\<dots> \<longleftrightarrow> fmlookup (m w) role \<noteq> None"
    by (simp only: fmlookup_dom_iff not_None_eq)
  finally show ?thesis
    by (simp only: findRole_lookup)
qed

lemma enumerates_set: "enumerates roles w \<Longrightarrow> set roles = {role. findRole w role \<noteq> None}"
  using enumerates_mem by blast

subsection \<open>The example with infinite rates, and the encoder on the examples\<close>

lemma wf_inf_world: "wf inf_world"
  by (simp add: wf_def inf_world_def empty_world_def)

lemma stored_inf_world: "stored inf_world ''manager'' = Some inf_report"
  by (simp add: stored_lookup inf_world_def empty_world_def)

lemma sanitized_inf_report: "sanitized inf_report = inf_report\<lparr>WindowRate := minus_one, StandardDev := minus_one\<rparr>"
  by (simp add: sanitized_def nan_to_minus_one_def inf_report_def nan_report_def float_simps)

lemma marshal_sanitized_inf_report:
  "marshal_IntervalReport (sanitized inf_report) = Inl UnsupportedValueError"
  unfolding sanitized_inf_report
  by (simp add: marshal_IntervalReport_def marshal_float64_def
      inf_report_def nan_report_def float_simps)

lemma marshal_sanitized_nan_report:
  "marshal_IntervalReport (sanitized nan_report) =
     Inr (JObject
       [(''pid'', JInt 4242),
        (''role'', JString ''worker''),
        (''first_seen'', JTime epoch),
        (''last_seen'', JTime later),
        (''age'', JInt 600000000000),
        (''window_rate'', JFloat minus_one),
        (''standard_dev'', JFloat minus_one),
        (''lifetime_rate'', JFloat one_half),
        (''current_rate'', JFloat minus_one),
        (''times_restarted'', JInt 0),
        (''virtual_memory_bytes'', JInt 1048576),
        (''rss_bytes'', JInt 4096),
        (''rate_histogram'', JNull)])"
  unfolding sanitized_nan_report
  by (simp add: marshal_IntervalReport_def marshal_float64_def
      nan_report_def float_simps)

subsection \<open>The size of the store and the loop of \<^verbatim>\<open>All\<close>\<close>

lemma extends_Printf_role: "extends w (Printf_role w role)"
  by (simp add: extends_def Printf_role_def)

lemma Len_0_iff: "Len w = 0 \<longleftrightarrow> m w = fmempty"
proof
  assume "Len w = 0"
  then have "fmdom (m w) = {||}" by (simp add: Len_def)
  then have "fmlookup (m w) k = None" for k
    by (metis fmdom_notD fempty_iff)
  then show "m w = fmempty" by (intro fmap_ext) simp
next
  assume "m w = fmempty"
  then show "Len w = 0" by (simp add: Len_def)
qed

lemma Empty_iff: "Empty w \<longleftrightarrow> m w = fmempty"
  using Len_0_iff [of w] by (simp add: Empty_def Len_def)

lemma enumerates_length: "enumerates roles w \<Longrightarrow> Len w = int (length roles)"
proof -
  assume e: "enumerates roles w"
  then have "fcard (fmdom (m w)) = fcard (fset_of_list roles)"
    by (simp add: enumerates_def)
  also have "\<dots> = card (set roles)"
    by (simp add: fcard.rep_eq fset_of_list.rep_eq)
  also have "\<dots> = length roles"
    using e by (simp add: enumerates_def distinct_card)
  finally show ?thesis by (simp add: Len_def)
qed

lemma All_range_spec:
  assumes "wf w" and "\<forall>role\<in>set roles. findRole w role \<noteq> None"
    and "c + length roles \<le> length l"
  shows "\<exists>w'. All_range w roles l c =
                (Inr (take c l @ map Some [brk w..<brk w + length roles] @
                      drop (c + length roles) l), w') \<and>
              extends w w' \<and> brk w' = brk w + length roles \<and> logged w' = logged w \<and>
              stdout w' = stdout w @ map (\<lambda>role. Text (''role => '' @ role @ [newline])) roles \<and>
              map (heap w') [brk w..<brk w + length roles] =
                map (\<lambda>role. sanitized (heap w (the (findRole w role)))) roles"
  using assms
proof (induction roles arbitrary: w l c)
  case Nil
  then show ?case by (simp add: extends_refl)
next
  case (Cons role roles)
  from Cons.prems(2) obtain a where a: "fmlookup (m w) role = Some a"
    by (auto simp add: findRole_lookup)
  define w1 where "w1 = w\<lparr>heap := (heap w)(brk w := sanitized (heap w a)), brk := Suc (brk w)\<rparr>"
  define w2 where "w2 = Printf_role w1 role"
  have s: "safeIntervalReport w role = (Some (brk w), w1)"
    using a by (simp add: safeIntervalReport_found w1_def)
  have e1: "extends w w2"
    by (simp add: extends_def w2_def w1_def Printf_role_def)
  have wf2: "wf w2" using e1 Cons.prems(1) by (rule extends_wf)
  have fr: "findRole w2 r = findRole w r" for r
    using e1 by (rule extends_findRole)
  have st: "\<forall>role\<in>set roles. findRole w2 role \<noteq> None"
    using Cons.prems(2) by (simp add: fr)
  have c: "c < length l" using Cons.prems(3) by simp
  have len: "Suc c + length roles \<le> length (l[c := Some (brk w)])"
    using Cons.prems(3) by simp
  from Cons.IH [OF wf2 st len] obtain w' where
    r: "All_range w2 roles (l[c := Some (brk w)]) (Suc c) =
          (Inr (take (Suc c) (l[c := Some (brk w)]) @ map Some [brk w2..<brk w2 + length roles] @
                drop (Suc c + length roles) (l[c := Some (brk w)])), w')"
    and e2: "extends w2 w'" and b: "brk w' = brk w2 + length roles"
    and lg: "logged w' = logged w2"
    and so: "stdout w' = stdout w2 @ map (\<lambda>role. Text (''role => '' @ role @ [newline])) roles"
    and hp: "map (heap w') [brk w2..<brk w2 + length roles] =
               map (\<lambda>role. sanitized (heap w2 (the (findRole w2 role)))) roles"
    by blast
  have b2: "brk w2 = Suc (brk w)" by (simp add: w2_def w1_def Printf_role_def)
  have tk: "take (Suc c) (l[c := Some (brk w)]) = take c l @ [Some (brk w)]"
    using c by (simp add: take_Suc_conv_app_nth)
  have dr: "drop (Suc c + length roles) (l[c := Some (brk w)]) = drop (Suc c + length roles) l"
    by simp
  have up: "[brk w..<brk w + length (role # roles)] = brk w # [Suc (brk w)..<Suc (brk w) + length roles]"
  proof -
    have "brk w < brk w + length (role # roles)" by simp
    from upt_conv_Cons [OF this] show ?thesis by simp
  qed
  have h0: "heap w' (brk w) = sanitized (heap w a)"
  proof -
    have "heap w' (brk w) = heap w2 (brk w)" using e2 b2 by (simp add: extends_def)
    then show ?thesis by (simp add: w2_def w1_def Printf_role_def)
  qed
  have hs: "map (\<lambda>role. sanitized (heap w2 (the (findRole w2 role)))) roles =
            map (\<lambda>role. sanitized (heap w (the (findRole w role)))) roles"
  proof (rule map_cong [OF refl])
    fix r assume "r \<in> set roles"
    with Cons.prems(2) obtain a' where a': "findRole w r = Some a'" by auto
    with Cons.prems(1) have "a' < brk w" by (simp add: wf_def findRole_lookup)
    with e1 have "heap w2 a' = heap w a'" by (simp add: extends_def)
    with a' show "sanitized (heap w2 (the (findRole w2 r))) = sanitized (heap w (the (findRole w r)))"
      by (simp add: fr)
  qed
  have res: "All_range w (role # roles) l c =
          (Inr (take c l @ map Some [brk w..<brk w + length (role # roles)] @
                drop (c + length (role # roles)) l), w')"
  proof -
    have "All_range w (role # roles) l c = All_range w2 roles (l[c := Some (brk w)]) (Suc c)"
      using s c by (simp add: w2_def)
    moreover have "take (Suc c) (l[c := Some (brk w)]) @ map Some [brk w2..<brk w2 + length roles] @
        drop (Suc c + length roles) (l[c := Some (brk w)]) =
        take c l @ map Some [brk w..<brk w + length (role # roles)] @
        drop (c + length (role # roles)) l"
      unfolding tk dr up b2 by simp
    ultimately show ?thesis using r by simp
  qed
  have "extends w w'" using e1 e2 by (rule extends_trans)
  moreover have "brk w' = brk w + length (role # roles)" using b b2 by simp
  moreover have "logged w' = logged w" using lg by (simp add: w2_def w1_def Printf_role_def)
  moreover have "stdout w' = stdout w @ map (\<lambda>role. Text (''role => '' @ role @ [newline])) (role # roles)"
    using so by (simp add: w2_def w1_def Printf_role_def)
  moreover have "map (heap w') [brk w..<brk w + length (role # roles)] =
                map (\<lambda>role. sanitized (heap w (the (findRole w role)))) (role # roles)"
    using hp h0 a by (simp only: up b2 hs) (simp add: findRole_lookup)
  ultimately show ?case using res by blast
qed


lemma All_spec:
  assumes "wf w" and "enumerates roles w" and "m w \<noteq> fmempty"
  shows "\<exists>w'. Summaries_All w roles = (Inr (map Some [brk w..<brk w + length roles]), w') \<and>
              extends w w' \<and> brk w' = brk w + length roles \<and> logged w' = logged w \<and>
              stdout w' = stdout w @ map (\<lambda>role. Text (''role => '' @ role @ [newline])) roles \<and>
              map (heap w') [brk w..<brk w + length roles] =
                map (\<lambda>role. sanitized (heap w (the (findRole w role)))) roles"
proof -
  have n: "Len w = int (length roles)" using assms(2) by (rule enumerates_length)
  have st: "\<forall>role\<in>set roles. findRole w role \<noteq> None"
    using enumerates_mem [OF assms(2)] by simp
  have le: "0 + length roles \<le> length (replicate (length roles) (None :: ptr))" by simp
  have ne: "Len w \<noteq> 0" using assms(3) by (simp add: Len_0_iff)
  from All_range_spec [OF assms(1) st le] ne show ?thesis
    by (simp add: Summaries_All_def n)
qed

lemma wf_empty_world: "wf empty_world"
  by (simp add: wf_def empty_world_def)

lemma enumerates_empty_world: "enumerates [] empty_world"
  by (simp add: enumerates_def empty_world_def)

lemma enumerates_nan_world: "enumerates [''worker''] nan_world"
  by (simp add: enumerates_def nan_world_def empty_world_def)

subsection \<open>One pass of the loop, and the loop\<close>

lemma select_case_Receive_nil: "select_case marshal w (Receive None) = (Returned, w)"
  by (simp add: select_case_def)

lemma select_case_Idle: "select_case marshal w Idle = (Running, w)"
  by (simp add: select_case_def)

lemma select_case_Receive:
  assumes "wf w"
  shows "fst (select_case marshal w (Receive (Some r))) = Running \<and>
         wf (snd (select_case marshal w (Receive (Some r)))) \<and>
         stored (snd (select_case marshal w (Receive (Some r)))) = (stored w)(Role r \<mapsto> r) \<and>
         stdout (snd (select_case marshal w (Receive (Some r)))) = stdout w \<and>
         logged (snd (select_case marshal w (Receive (Some r)))) = logged w"
proof -
  define w1 where "w1 = w\<lparr>heap := (heap w)(brk w := r), brk := Suc (brk w),
                           m := fmupd (Role r) (brk w) (m w)\<rparr>"
  have s: "select_case marshal w (Receive (Some r)) = (Running, w1)"
    by (simp add: select_case_def new_def Insert_def w1_def)
  have wf1: "wf w1"
    using assms by (auto simp add: wf_def w1_def less_Suc_eq split: if_splits)
  have "stored w1 role = ((stored w)(Role r \<mapsto> r)) role" for role
    using assms by (auto simp add: stored_lookup w1_def wf_def split: option.splits)
  then have "stored w1 = (stored w)(Role r \<mapsto> r)" by (rule ext)
  then show ?thesis using s wf1 by (simp add: w1_def)
qed

lemma select_case_Tick:
  assumes "wf w"
  shows "fst (select_case marshal w (Tick roles)) = Running \<and>
         extends w (snd (select_case marshal w (Tick roles))) \<and>
         stdout (snd (select_case marshal w (Tick roles))) =
           (if Empty w then stdout w
            else case fst (ToJSON marshal w roles) of
                   Inl err \<Rightarrow> stdout w
                 | Inr data \<Rightarrow> stdout w @ [Payload data]) \<and>
         logged (snd (select_case marshal w (Tick roles))) =
           (if Empty w then logged w
            else case fst (ToJSON marshal w roles) of
                   Inl err \<Rightarrow> logged w @ [err]
                 | Inr data \<Rightarrow> logged w)"
proof (cases "Empty w")
  case True
  then show ?thesis by (simp add: select_case_def extends_refl)
next
  case False
  obtain res w1 where t: "ToJSON marshal w roles = (res, w1)"
    by (cases "ToJSON marshal w roles")
  from ToJSON_spec [OF assms, of marshal roles] t
  have e: "extends w w1" and io: "stdout w1 = stdout w" "logged w1 = logged w"
    by simp_all
  show ?thesis
    using False t e io by (cases res) (simp_all add: select_case_def extends_def)
qed

lemma select_case_spec:
  assumes "wf w"
  shows "fst (select_case marshal w e) = (if e = Receive None then Returned else Running) \<and>
         wf (snd (select_case marshal w e)) \<and>
         stored (snd (select_case marshal w e)) =
           (case e of Receive (Some r) \<Rightarrow> (stored w)(Role r \<mapsto> r) | _ \<Rightarrow> stored w)"
proof (cases e)
  case (Receive p)
  then show ?thesis
    using assms select_case_Receive [OF assms]
    by (cases p) (simp_all add: select_case_Receive_nil)
next
  case (Tick roles)
  from select_case_Tick [OF assms, of marshal roles]
  have e: "extends w (snd (select_case marshal w (Tick roles)))"
    and r: "fst (select_case marshal w (Tick roles)) = Running" by simp_all
  have "stored (snd (select_case marshal w (Tick roles))) = stored w"
    using extends_stored [OF e assms] by (intro ext)
  then show ?thesis using Tick r extends_wf [OF e assms] by simp
next
  case Idle
  then show ?thesis using assms by (simp add: select_case_Idle)
qed

lemma startIntervalReport_spec:
  assumes "wf w"
  shows "fst (startIntervalReport marshal w es) =
           (if Receive None \<in> set es then Returned else Running) \<and>
         stored (snd (startIntervalReport marshal w es)) = insert_all (stored w) (received es)"
  using assms
proof (induction es arbitrary: w)
  case Nil
  then show ?case by (simp add: insert_all_def)
next
  case (Cons e es)
  obtain s w1 where sc: "select_case marshal w e = (s, w1)"
    by (cases "select_case marshal w e")
  from select_case_spec [OF Cons.prems, of marshal e] sc
  have s: "s = (if e = Receive None then Returned else Running)" and wf1: "wf w1"
    and st: "stored w1 = (case e of Receive (Some r) \<Rightarrow> (stored w)(Role r \<mapsto> r) | _ \<Rightarrow> stored w)"
    by simp_all
  show ?case
  proof (cases "e = Receive None")
    case True
    then show ?thesis using sc s st by (simp add: insert_all_def)
  next
    case False
    then have run: "startIntervalReport marshal w (e # es) = startIntervalReport marshal w1 es"
      using sc s by simp
    have "insert_all (stored w1) (received es) = insert_all (stored w) (received (e # es))"
    proof (cases e)
      case (Receive p)
      with False obtain r where "p = Some r" by (cases p) auto
      with Receive st show ?thesis by (simp add: insert_all_def)
    next
      case (Tick roles)
      with st show ?thesis by simp
    next
      case Idle
      with st show ?thesis by simp
    qed
    with Cons.IH [OF wf1] run False show ?thesis by auto
  qed
qed

lemma startIntervalReport_marker:
  "Receive None \<notin> set es \<Longrightarrow> fst (startIntervalReport marshal w es) = Running \<Longrightarrow>
   startIntervalReport marshal w (es @ Receive None # rest) =
     (Returned, snd (startIntervalReport marshal w es))"
proof (induction es arbitrary: w)
  case Nil
  then show ?case by (simp add: select_case_Receive_nil)
next
  case (Cons e es)
  obtain s w1 where sc: "select_case marshal w e = (s, w1)"
    by (cases "select_case marshal w e")
  show ?case
  proof (cases s)
    case Running
    with Cons sc show ?thesis by simp
  next
    case Returned
    with Cons.prems sc show ?thesis by simp
  next
    case (Panicked err)
    with Cons.prems sc show ?thesis by simp
  qed
qed

subsection \<open>Ticks on the example worlds\<close>

lemma not_Empty_nan_world: "\<not> Empty nan_world"
  using enumerates_length [OF enumerates_nan_world] by (simp add: Empty_def Len_def)

lemma enumerates_inf_world: "enumerates [''manager''] inf_world"
  by (simp add: enumerates_def inf_world_def empty_world_def)

lemma not_Empty_inf_world: "\<not> Empty inf_world"
  using enumerates_length [OF enumerates_inf_world] by (simp add: Empty_def Len_def)

lemma Empty_empty_world: "Empty empty_world"
  by (simp add: Empty_iff empty_world_def)

lemma ToJSON_nan_world:
  "fst (ToJSON json_Marshal nan_world [''worker'']) =
     Inr (JArray [JObject
       [(''pid'', JInt 4242),
        (''role'', JString ''worker''),
        (''first_seen'', JTime epoch),
        (''last_seen'', JTime later),
        (''age'', JInt 600000000000),
        (''window_rate'', JFloat minus_one),
        (''standard_dev'', JFloat minus_one),
        (''lifetime_rate'', JFloat one_half),
        (''current_rate'', JFloat minus_one),
        (''times_restarted'', JInt 0),
        (''virtual_memory_bytes'', JInt 1048576),
        (''rss_bytes'', JInt 4096),
        (''rate_histogram'', JNull)]])"
  using ToJSON_spec [OF wf_nan_world, of json_Marshal "[''worker'']"]
  by (simp add: stored_nan_world marshal_pointer_def marshal_sanitized_nan_report)

lemma ToJSON_inf_world:
  "fst (ToJSON json_Marshal inf_world [''manager'']) = Inl UnsupportedValueError"
  using ToJSON_spec [OF wf_inf_world, of json_Marshal "[''manager'']"]
  by (simp add: stored_inf_world marshal_pointer_def marshal_sanitized_inf_report)

section \<open>Properties of the store\<close>

text \<open>
  Claim C3. For every world and every allocated report, \<^verbatim>\<open>Insert\<close> followed by
  \<^verbatim>\<open>findRole\<close> for the report's role returns the pointer that was inserted, and the
  report behind it is the one inserted: \<^verbatim>\<open>Insert\<close> writes to no report, so no field,
  a NaN rate included, has changed.
\<close>

theorem Insert_then_findRole:
  "fst (Insert w (Some a)) = Inr () \<and>
   findRole (snd (Insert w (Some a))) (Role (heap w a)) = Some a \<and>
   heap (snd (Insert w (Some a))) = heap w \<and>
   stored (snd (Insert w (Some a))) (Role (heap w a)) = Some (heap w a)"
  by (simp add: Insert_def findRole_lookup stored_lookup)


text \<open>
  Claim C2. Serialization works on a copy: for a role present in the store, after
  \<^verbatim>\<open>RoleToJSON\<close> (for any role) or \<^verbatim>\<open>ToJSON\<close> (for any order of the range),
  \<^verbatim>\<open>findRole\<close> returns the same pointer, the report behind it is the one that was
  there before, and so is what a reader gets.
\<close>

theorem serialization_leaves_stored:
  assumes "wf w" and "findRole w role = Some a"
  shows "findRole (snd (RoleToJSON marshal w queried)) role = Some a \<and>
         heap (snd (RoleToJSON marshal w queried)) a = heap w a \<and>
         stored (snd (RoleToJSON marshal w queried)) role = Some (heap w a) \<and>
         findRole (snd (ToJSON marshal w roles)) role = Some a \<and>
         heap (snd (ToJSON marshal w roles)) a = heap w a \<and>
         stored (snd (ToJSON marshal w roles)) role = Some (heap w a)"
proof -
  have a: "a < brk w" using assms by (simp add: wf_def findRole_lookup)
  have s: "stored w role = Some (heap w a)" using assms(2) by (simp add: stored_def load_def)
  have e1: "extends w (snd (RoleToJSON marshal w queried))"
    using RoleToJSON_spec by simp
  have e2: "extends w (snd (ToJSON marshal w roles))"
    using ToJSON_spec [OF assms(1)] by simp
  have h1: "heap (snd (RoleToJSON marshal w queried)) a = heap w a"
    using e1 a by (simp add: extends_def)
  have h2: "heap (snd (ToJSON marshal w roles)) a = heap w a"
    using e2 a by (simp add: extends_def)
  show ?thesis
    using assms e1 e2 h1 h2 s by (simp add: extends_findRole extends_stored)
qed


theorem serialization_leaves_stored_witness:
  "wf nan_world \<and> findRole nan_world ''worker'' = Some 0 \<and>
   heap nan_world 0 = nan_report \<and> IsNaN (CurrentRate nan_report) \<and>
   findRole (snd (RoleToJSON json_Marshal nan_world ''worker'')) ''worker'' = Some 0 \<and>
   stored (snd (RoleToJSON json_Marshal nan_world ''worker'')) ''worker'' = Some nan_report \<and>
   findRole (snd (ToJSON json_Marshal nan_world [''worker''])) ''worker'' = Some 0 \<and>
   stored (snd (ToJSON json_Marshal nan_world [''worker''])) ''worker'' = Some nan_report"
proof -
  have f: "findRole nan_world ''worker'' = Some 0"
    by (simp add: findRole_lookup nan_world_def empty_world_def)
  have h: "heap nan_world 0 = nan_report"
    by (simp add: nan_world_def empty_world_def)
  have n: "IsNaN (CurrentRate nan_report)"
    by (simp add: nan_report_def float_simps)
  show ?thesis
    using serialization_leaves_stored [OF wf_nan_world f, of json_Marshal "''worker''" "[''worker'']"]
      wf_nan_world f h n by simp
qed

section \<open>Properties of serialization\<close>

text \<open>
  Claim C5, as amended. \<^verbatim>\<open>RoleToJSON\<close> for a role with no stored report returns the
  error \<^verbatim>\<open>errNoInfoForRole\<close> and leaves the world as it was. For a role with a stored
  report it returns what the encoder returns for the NaN-sanitized copy of that report:
  the document, or the encoder's error.
\<close>

theorem RoleToJSON_result:
  "(findRole w role = None \<longrightarrow> RoleToJSON marshal w role = (Inl errNoInfoForRole, w)) \<and>
   (\<forall>a. findRole w role = Some a \<longrightarrow>
      fst (RoleToJSON marshal w role) = marshal (Pointer (Some (sanitized (heap w a)))))"
proof (intro conjI allI impI)
  assume "findRole w role = None"
  then show "RoleToJSON marshal w role = (Inl errNoInfoForRole, w)"
    by (simp add: RoleToJSON_def safeIntervalReport_absent findRole_lookup)
next
  fix a assume "findRole w role = Some a"
  then have "stored w role = Some (heap w a)"
    by (simp add: stored_def load_def)
  with RoleToJSON_spec [of marshal w role]
  show "fst (RoleToJSON marshal w role) = marshal (Pointer (Some (sanitized (heap w a))))"
    by simp
qed

theorem RoleToJSON_result_witness:
  "findRole nan_world ''manager'' = None \<and>
   RoleToJSON json_Marshal nan_world ''manager'' = (Inl errNoInfoForRole, nan_world) \<and>
   findRole nan_world ''worker'' = Some 0 \<and>
   fst (RoleToJSON json_Marshal nan_world ''worker'') =
     Inr (JObject
       [(''pid'', JInt 4242),
        (''role'', JString ''worker''),
        (''first_seen'', JTime epoch),
        (''last_seen'', JTime later),
        (''age'', JInt 600000000000),
        (''window_rate'', JFloat minus_one),
        (''standard_dev'', JFloat minus_one),
        (''lifetime_rate'', JFloat one_half),
        (''current_rate'', JFloat minus_one),
        (''times_restarted'', JInt 0),
        (''virtual_memory_bytes'', JInt 1048576),
        (''rss_bytes'', JInt 4096),
        (''rate_histogram'', JNull)])"
proof -
  have a: "findRole nan_world ''manager'' = None"
    by (simp add: findRole_lookup nan_world_def empty_world_def)
  have p: "findRole nan_world ''worker'' = Some 0"
    by (simp add: findRole_lookup nan_world_def empty_world_def)
  have h: "heap nan_world 0 = nan_report"
    by (simp add: nan_world_def empty_world_def)
  show ?thesis
    using RoleToJSON_result [of nan_world "''manager''" json_Marshal]
      RoleToJSON_result [of nan_world "''worker''" json_Marshal] a p
    by (simp add: h marshal_pointer_def marshal_sanitized_nan_report)
qed

text \<open>
  Claim C5 as it was stated promises a serialization without error for every role with a
  stored report. Sanitization leaves an infinite rate in the copy, and the encoder of the
  library rejects it.
\<close>

theorem RoleToJSON_error_counterexample:
  "findRole inf_world ''manager'' = Some 0 \<and>
   heap inf_world 0 = inf_report \<and>
   IsInf (CurrentRate inf_report) \<and>
   fst (RoleToJSON json_Marshal inf_world ''manager'') = Inl UnsupportedValueError"
proof -
  have "fst (RoleToJSON json_Marshal inf_world ''manager'') = Inl UnsupportedValueError"
    using RoleToJSON_spec [of json_Marshal inf_world "''manager''"]
    by (simp add: stored_inf_world marshal_pointer_def marshal_sanitized_inf_report)
  then show ?thesis
    by (simp add: findRole_lookup inf_world_def empty_world_def inf_report_def float_simps)
qed



text \<open>
  Claim C1, as amended. For a well-formed world, both serialization paths hand the
  encoder NaN-sanitized copies and nothing else: \<^verbatim>\<open>RoleToJSON\<close> the copy of the one
  report, \<^verbatim>\<open>ToJSON\<close> one copy for each stored role, in the order of the range. In a
  copy each of the four rates is \<open>-1\<close> where the stored rate is NaN and is the stored
  rate where it is not; an infinite rate is not NaN, so it is passed on unchanged.
\<close>

theorem serialization_replaces_NaN_only:
  assumes "wf w" and "enumerates roles w"
  shows "fst (RoleToJSON marshal w role) =
           (case stored w role of
              None \<Rightarrow> Inl errNoInfoForRole
            | Some r \<Rightarrow> marshal (Pointer (Some (sanitized r)))) \<and>
         fst (ToJSON marshal w roles) =
           marshal (Slice (map (\<lambda>role. map_option sanitized (stored w role)) roles)) \<and>
         set roles = {role. stored w role \<noteq> None} \<and>
         CurrentRate (sanitized r) = (if IsNaN (CurrentRate r) then minus_one else CurrentRate r) \<and>
         LifetimeRate (sanitized r) = (if IsNaN (LifetimeRate r) then minus_one else LifetimeRate r) \<and>
         StandardDev (sanitized r) = (if IsNaN (StandardDev r) then minus_one else StandardDev r) \<and>
         WindowRate (sanitized r) = (if IsNaN (WindowRate r) then minus_one else WindowRate r) \<and>
         (IsInf f \<longrightarrow> \<not> IsNaN f) \<and> \<not> IsNaN minus_one \<and> \<not> IsInf minus_one"
proof -
  have s: "set roles = {role. stored w role \<noteq> None}"
    using enumerates_set [OF assms(2)] by (simp add: stored_def load_def split: option.splits)
  have f: "CurrentRate (sanitized r) = (if IsNaN (CurrentRate r) then minus_one else CurrentRate r)"
    "LifetimeRate (sanitized r) = (if IsNaN (LifetimeRate r) then minus_one else LifetimeRate r)"
    "StandardDev (sanitized r) = (if IsNaN (StandardDev r) then minus_one else StandardDev r)"
    "WindowRate (sanitized r) = (if IsNaN (WindowRate r) then minus_one else WindowRate r)"
    by (simp_all add: sanitized_def nan_to_minus_one_def)
  have i: "IsInf f \<longrightarrow> \<not> IsNaN f" "\<not> IsInf minus_one"
    by (simp_all add: IsInf_not_IsNaN) (simp add: float_simps)
  show ?thesis
    using RoleToJSON_spec [of marshal w role] ToJSON_spec [OF assms(1), of marshal roles] s f i
      not_IsNaN_minus_one
    by simp
qed

theorem serialization_replaces_NaN_only_witness:
  "wf nan_world \<and> enumerates [''worker''] nan_world \<and>
   stored nan_world ''worker'' = Some nan_report \<and>
   IsNaN (CurrentRate nan_report) \<and> IsNaN (StandardDev nan_report) \<and>
   IsNaN (WindowRate nan_report) \<and> \<not> IsNaN (LifetimeRate nan_report) \<and>
   fst (ToJSON json_Marshal nan_world [''worker'']) =
     Inr (JArray [JObject
       [(''pid'', JInt 4242),
        (''role'', JString ''worker''),
        (''first_seen'', JTime epoch),
        (''last_seen'', JTime later),
        (''age'', JInt 600000000000),
        (''window_rate'', JFloat minus_one),
        (''standard_dev'', JFloat minus_one),
        (''lifetime_rate'', JFloat one_half),
        (''current_rate'', JFloat minus_one),
        (''times_restarted'', JInt 0),
        (''virtual_memory_bytes'', JInt 1048576),
        (''rss_bytes'', JInt 4096),
        (''rate_histogram'', JNull)]])"
proof -
  have e: "enumerates [''worker''] nan_world"
    by (simp add: enumerates_def nan_world_def empty_world_def)
  have n: "IsNaN (CurrentRate nan_report)" "IsNaN (StandardDev nan_report)"
    "IsNaN (WindowRate nan_report)" "\<not> IsNaN (LifetimeRate nan_report)"
    by (simp_all add: nan_report_def float_simps)
  show ?thesis
    using serialization_replaces_NaN_only [OF wf_nan_world e, of json_Marshal "''worker''"]
      wf_nan_world e n
    by (simp add: stored_nan_world marshal_pointer_def marshal_sanitized_nan_report)
qed

text \<open>
  Claim C1 as it was stated has an infinite rate replaced by \<open>-1\<close> in the output. The
  copy of a report with the rates \<open>+Inf\<close> and \<open>-Inf\<close> still holds them, and with the
  encoder of the library neither path gives any output for it.
\<close>

theorem infinite_rate_counterexample:
  "stored inf_world ''manager'' = Some inf_report \<and>
   CurrentRate inf_report = pos_Inf \<and> IsInf pos_Inf \<and>
   LifetimeRate inf_report = neg_Inf \<and> IsInf neg_Inf \<and>
   fst (safeIntervalReport inf_world ''manager'') = Some 1 \<and>
   CurrentRate (heap (snd (safeIntervalReport inf_world ''manager'')) 1) = pos_Inf \<and>
   LifetimeRate (heap (snd (safeIntervalReport inf_world ''manager'')) 1) = neg_Inf \<and>
   pos_Inf \<noteq> minus_one \<and> neg_Inf \<noteq> minus_one \<and>
   fst (RoleToJSON json_Marshal inf_world ''manager'') = Inl UnsupportedValueError \<and>
   fst (ToJSON json_Marshal inf_world [''manager'']) = Inl UnsupportedValueError"
proof -
  have l: "fmlookup (m inf_world) ''manager'' = Some 0"
    by (simp add: inf_world_def empty_world_def)
  have b: "brk inf_world = 1" and h: "heap inf_world 0 = inf_report"
    by (simp_all add: inf_world_def empty_world_def)
  have r: "fst (RoleToJSON json_Marshal inf_world ''manager'') = Inl UnsupportedValueError"
    using RoleToJSON_spec [of json_Marshal inf_world "''manager''"]
    by (simp add: stored_inf_world marshal_pointer_def marshal_sanitized_inf_report)
  have t: "fst (ToJSON json_Marshal inf_world [''manager'']) = Inl UnsupportedValueError"
    using ToJSON_spec [OF wf_inf_world, of json_Marshal "[''manager'']"]
    by (simp add: stored_inf_world marshal_pointer_def marshal_sanitized_inf_report)
  have f: "CurrentRate inf_report = pos_Inf" "LifetimeRate inf_report = neg_Inf"
    by (simp_all add: inf_report_def)
  have c: "IsInf pos_Inf" "IsInf neg_Inf" "pos_Inf \<noteq> minus_one" "neg_Inf \<noteq> minus_one"
    by (simp_all add: float_simps)
  show ?thesis
    using r t f c
    by (simp add: safeIntervalReport_found [OF l] b h stored_inf_world sanitized_inf_report)
qed

section \<open>Properties of reading the whole store\<close>

text \<open>
  Claim C4. \<^verbatim>\<open>All\<close> returns an error if and only if the store holds no entry, which is
  when its map is empty: then the error is the one made from "zero summaries currently
  available", no slice is returned and the world is as before. When the store holds
  entries there is no error, and the slice has one pointer for each stored role, each to
  a report of its own: the range visits every stored role once, and the pointer at the
  place of a role is to a report allocated by the call that holds the sanitized copy of
  the report stored for that role. The call allocates these reports and no other,
  leaves the map and the stored reports as they were, prints one line for each role and
  logs nothing.
\<close>

theorem All_error_iff_empty:
  assumes "wf w" and "enumerates roles w"
  shows "((\<exists>e. fst (Summaries_All w roles) = Inl e) \<longleftrightarrow> Len w = 0) \<and>
         (Len w = 0 \<longleftrightarrow> m w = fmempty) \<and>
         (Len w = 0 \<longrightarrow> Summaries_All w roles = (Inl zero_summaries_currently_available, w)) \<and>
         (Len w \<noteq> 0 \<longrightarrow>
            fst (Summaries_All w roles) = Inr (map Some [brk w..<brk w + nat (Len w)]) \<and>
            length roles = nat (Len w) \<and> distinct roles \<and>
            set roles = {role. findRole w role \<noteq> None} \<and>
            brk (snd (Summaries_All w roles)) = brk w + nat (Len w) \<and>
            m (snd (Summaries_All w roles)) = m w \<and>
            (\<forall>i<length roles. \<exists>a.
               findRole w (roles ! i) = Some a \<and> a < brk w \<and>
               heap (snd (Summaries_All w roles)) (brk w + i) = sanitized (heap w a) \<and>
               heap (snd (Summaries_All w roles)) a = heap w a) \<and>
            stdout (snd (Summaries_All w roles)) =
              stdout w @ map (\<lambda>role. Text (''role => '' @ role @ [newline])) roles \<and>
            logged (snd (Summaries_All w roles)) = logged w)"
proof (cases "Len w = 0")
  case True
  then show ?thesis by (simp add: Summaries_All_def Len_0_iff)
next
  case False
  then have ne: "m w \<noteq> fmempty" by (simp add: Len_0_iff)
  have n: "Len w = int (length roles)" using assms(2) by (rule enumerates_length)
  from All_spec [OF assms ne] obtain w' where
    r: "Summaries_All w roles = (Inr (map Some [brk w..<brk w + length roles]), w')"
    and e: "extends w w'" and b: "brk w' = brk w + length roles"
    and lg: "logged w' = logged w"
    and so: "stdout w' = stdout w @ map (\<lambda>role. Text (''role => '' @ role @ [newline])) roles"
    and hp: "map (heap w') [brk w..<brk w + length roles] =
               map (\<lambda>role. sanitized (heap w (the (findRole w role)))) roles"
    by blast
  have copies: "\<exists>a. findRole w (roles ! i) = Some a \<and> a < brk w \<and>
                  heap w' (brk w + i) = sanitized (heap w a) \<and> heap w' a = heap w a"
    if i: "i < length roles" for i
  proof -
    have "roles ! i \<in> set roles" using i by simp
    then obtain a where a: "findRole w (roles ! i) = Some a"
      using enumerates_mem [OF assms(2)] by auto
    have lt: "a < brk w" using assms(1) a by (simp add: wf_def findRole_lookup)
    have "map (heap w') [brk w..<brk w + length roles] ! i =
          map (\<lambda>role. sanitized (heap w (the (findRole w role)))) roles ! i"
      by (simp only: hp)
    then have "heap w' (brk w + i) = sanitized (heap w a)"
      using i a by simp
    moreover have "heap w' a = heap w a" using e lt by (simp add: extends_def)
    ultimately show ?thesis using a lt by simp
  qed
  have mm: "m w' = m w" using e by (simp add: extends_def)
  have s: "snd (Summaries_All w roles) = w'" using r by simp
  show ?thesis
    using False ne assms(2) enumerates_set [OF assms(2)] r copies b mm so lg
    by (simp add: n enumerates_def s)
qed

theorem All_error_iff_empty_witness:
  "wf empty_world \<and> enumerates [] empty_world \<and> Len empty_world = 0 \<and>
   Summaries_All empty_world [] = (Inl zero_summaries_currently_available, empty_world) \<and>
   wf nan_world \<and> enumerates [''worker''] nan_world \<and> Len nan_world = 1 \<and>
   findRole nan_world ''worker'' = Some 0 \<and> heap nan_world 0 = nan_report \<and>
   fst (Summaries_All nan_world [''worker'']) = Inr [Some 1] \<and>
   brk (snd (Summaries_All nan_world [''worker''])) = 2 \<and>
   heap (snd (Summaries_All nan_world [''worker''])) 1 =
     nan_report\<lparr>WindowRate := minus_one, StandardDev := minus_one, CurrentRate := minus_one\<rparr> \<and>
   heap (snd (Summaries_All nan_world [''worker''])) 0 = nan_report \<and>
   stdout (snd (Summaries_All nan_world [''worker''])) = [Text (''role => worker'' @ [newline])]"
proof -
  have e: "Len empty_world = 0" by (simp add: Len_0_iff empty_world_def)
  have n: "Len nan_world = 1" using enumerates_length [OF enumerates_nan_world] by simp
  have b: "brk nan_world = 1" and h: "heap nan_world 0 = nan_report"
    and so: "stdout nan_world = []"
    by (simp_all add: nan_world_def empty_world_def)
  have f: "findRole nan_world ''worker'' = Some 0"
    by (simp add: findRole_lookup nan_world_def empty_world_def)
  show ?thesis
    using All_error_iff_empty [OF wf_empty_world enumerates_empty_world]
      All_error_iff_empty [OF wf_nan_world enumerates_nan_world]
      wf_empty_world enumerates_empty_world wf_nan_world enumerates_nan_world
    by (simp add: e n b h f so sanitized_nan_report)
qed

text \<open>
  Claim C10. The reports \<^verbatim>\<open>All\<close> returns are NaN-sanitized copies: for every stored
  role the slice has, at the place where the range visits the role, a pointer to a new
  report that is the sanitized copy of the stored one, so each rate that is NaN in the
  stored report is \<open>-1\<close> in it; \<^verbatim>\<open>findRole\<close> still returns the stored report, with
  its NaN rates.
\<close>

theorem All_returns_sanitized_copies:
  assumes "wf w" and "enumerates roles w" and "findRole w role = Some a"
  shows "\<exists>l i. fst (Summaries_All w roles) = Inr l \<and> i < length l \<and> roles ! i = role \<and>
           l ! i = Some (brk w + i) \<and> a < brk w + i \<and>
           heap (snd (Summaries_All w roles)) (brk w + i) = sanitized (heap w a) \<and>
           findRole (snd (Summaries_All w roles)) role = Some a \<and>
           heap (snd (Summaries_All w roles)) a = heap w a \<and>
           (IsNaN (CurrentRate (heap w a)) \<longrightarrow>
              CurrentRate (heap (snd (Summaries_All w roles)) (brk w + i)) = minus_one \<and>
              IsNaN (CurrentRate (heap (snd (Summaries_All w roles)) a))) \<and>
           (IsNaN (LifetimeRate (heap w a)) \<longrightarrow>
              LifetimeRate (heap (snd (Summaries_All w roles)) (brk w + i)) = minus_one \<and>
              IsNaN (LifetimeRate (heap (snd (Summaries_All w roles)) a))) \<and>
           (IsNaN (StandardDev (heap w a)) \<longrightarrow>
              StandardDev (heap (snd (Summaries_All w roles)) (brk w + i)) = minus_one \<and>
              IsNaN (StandardDev (heap (snd (Summaries_All w roles)) a))) \<and>
           (IsNaN (WindowRate (heap w a)) \<longrightarrow>
              WindowRate (heap (snd (Summaries_All w roles)) (brk w + i)) = minus_one \<and>
              IsNaN (WindowRate (heap (snd (Summaries_All w roles)) a)))"
proof -
  have ne: "m w \<noteq> fmempty" using assms(3) by (auto simp add: findRole_lookup)
  from All_spec [OF assms(1,2) ne] obtain w' where
    r: "Summaries_All w roles = (Inr (map Some [brk w..<brk w + length roles]), w')"
    and e: "extends w w'"
    and hp: "map (heap w') [brk w..<brk w + length roles] =
               map (\<lambda>role. sanitized (heap w (the (findRole w role)))) roles"
    by blast
  have "role \<in> set roles" using enumerates_mem [OF assms(2)] assms(3) by simp
  then obtain i where i: "i < length roles" "roles ! i = role"
    by (auto simp add: in_set_conv_nth)
  have a: "a < brk w" using assms(1,3) by (simp add: wf_def findRole_lookup)
  have "map (heap w') [brk w..<brk w + length roles] ! i =
        map (\<lambda>role. sanitized (heap w (the (findRole w role)))) roles ! i"
    by (simp only: hp)
  then have c: "heap w' (brk w + i) = sanitized (heap w a)"
    using i assms(3) by simp
  have k: "heap w' a = heap w a" using e a by (simp add: extends_def)
  have f: "findRole w' role = Some a" using e assms(3) by (simp add: extends_findRole)
  have "fst (Summaries_All w roles) = Inr (map Some [brk w..<brk w + length roles]) \<and>
        i < length (map Some [brk w..<brk w + length roles]) \<and> roles ! i = role \<and>
        map Some [brk w..<brk w + length roles] ! i = Some (brk w + i) \<and> a < brk w + i"
    using r i a by simp
  moreover have "snd (Summaries_All w roles) = w'" using r by simp
  ultimately show ?thesis
    using c k f
    by (intro exI [of _ "map Some [brk w..<brk w + length roles]"] exI [of _ i])
      (simp add: sanitized_def nan_to_minus_one_def)
qed

theorem All_returns_sanitized_copies_witness:
  "wf nan_world \<and> enumerates [''worker''] nan_world \<and> findRole nan_world ''worker'' = Some 0 \<and>
   heap nan_world 0 = nan_report \<and>
   IsNaN (CurrentRate nan_report) \<and> IsNaN (StandardDev nan_report) \<and>
   IsNaN (WindowRate nan_report) \<and>
   fst (Summaries_All nan_world [''worker'']) = Inr [Some 1] \<and>
   heap (snd (Summaries_All nan_world [''worker''])) 1 =
     nan_report\<lparr>WindowRate := minus_one, StandardDev := minus_one, CurrentRate := minus_one\<rparr> \<and>
   heap (snd (Summaries_All nan_world [''worker''])) 0 = nan_report"
proof -
  have f: "findRole nan_world ''worker'' = Some 0"
    by (simp add: findRole_lookup nan_world_def empty_world_def)
  have h: "heap nan_world 0 = nan_report" and b: "brk nan_world = 1"
    by (simp_all add: nan_world_def empty_world_def)
  have n: "IsNaN (CurrentRate nan_report)" "IsNaN (StandardDev nan_report)"
    "IsNaN (WindowRate nan_report)"
    by (simp_all add: nan_report_def float_simps)
  have "m nan_world \<noteq> fmempty" using f by (auto simp add: findRole_lookup)
  from All_spec [OF wf_nan_world enumerates_nan_world this]
  have r: "fst (Summaries_All nan_world [''worker'']) = Inr [Some 1]"
    by (auto simp add: b)
  from All_returns_sanitized_copies [OF wf_nan_world enumerates_nan_world f]
  obtain l i where l: "fst (Summaries_All nan_world [''worker'']) = Inr l" and i: "i < length l"
    and c: "heap (snd (Summaries_All nan_world [''worker''])) (brk nan_world + i) = sanitized (heap nan_world 0)"
    and k: "heap (snd (Summaries_All nan_world [''worker''])) 0 = heap nan_world 0"
    by blast
  have "l = [Some 1]" using l r by simp
  with i have "i = 0" by simp
  with c k show ?thesis
    using wf_nan_world enumerates_nan_world f n r
    by (simp add: h b sanitized_nan_report)
qed


section \<open>Properties of the reporting loop\<close>

text \<open>
  Claim C7. However the cases of the \<^verbatim>\<open>select\<close> fall, the loop has returned exactly
  when it has received the nil pointer, and until then it is running: it does not
  panic. What a reader finds in the store afterwards is the store at the start with
  every report received before the marker inserted, in the order of receipt, so none
  is dropped. The insertion is part of the pass that receives the report; the pass
  that receives the marker returns and changes nothing; and nothing that comes after
  the marker is looked at.
\<close>

theorem loop_inserts_every_report:
  assumes "wf w"
  shows "fst (startIntervalReport marshal w es) =
           (if Receive None \<in> set es then Returned else Running) \<and>
         stored (snd (startIntervalReport marshal w es)) = insert_all (stored w) (received es) \<and>
         fst (select_case marshal w (Receive (Some r))) = Running \<and>
         stored (snd (select_case marshal w (Receive (Some r)))) = (stored w)(Role r \<mapsto> r) \<and>
         select_case marshal w (Receive None) = (Returned, w) \<and>
         (Receive None \<notin> set es \<longrightarrow>
            startIntervalReport marshal w (es @ Receive None # rest) =
              (Returned, snd (startIntervalReport marshal w es)))"
  using startIntervalReport_spec [OF assms, of marshal es] select_case_Receive [OF assms, of marshal r]
    startIntervalReport_marker [of es marshal w rest]
  by (simp add: select_case_Receive_nil)


theorem loop_inserts_every_report_witness:
  "wf empty_world \<and>
   fst (startIntervalReport json_Marshal empty_world example_events) = Returned \<and>
   stored (snd (startIntervalReport json_Marshal empty_world example_events)) ''worker'' =
     Some second_report \<and>
   stored (snd (startIntervalReport json_Marshal empty_world example_events)) ''manager'' =
     Some inf_report \<and>
   stored (snd (startIntervalReport json_Marshal empty_world example_events)) ''logger'' = None \<and>
   fst (startIntervalReport json_Marshal empty_world (take 5 example_events)) = Running \<and>
   startIntervalReport json_Marshal empty_world example_events =
     (Returned, snd (startIntervalReport json_Marshal empty_world (take 5 example_events)))"
proof -
  have r: "received example_events = [nan_report, inf_report, second_report]"
    by (simp add: example_events_def)
  have e: "stored empty_world = (\<lambda>role. None)"
    by (intro ext) (simp add: stored_lookup empty_world_def)
  have n: "Role nan_report = ''worker''" "Role inf_report = ''manager''"
    "Role second_report = ''worker''"
    by (simp_all add: nan_report_def inf_report_def second_report_def)
  have t: "take 5 example_events @ Receive None # [Receive (Some nan_report)] = example_events"
    "Receive None \<in> set example_events" "Receive None \<notin> set (take 5 example_events)"
    by (simp_all add: example_events_def)
  show ?thesis
    using loop_inserts_every_report [OF wf_empty_world, of json_Marshal example_events]
      loop_inserts_every_report [OF wf_empty_world, of json_Marshal "take 5 example_events"
        _ "[Receive (Some nan_report)]"]
      wf_empty_world
    by (simp add: t r e n insert_all_def)
qed

text \<open>
  Claim C8. On a tick, if the store is empty the pass changes nothing, so nothing is
  written. If the store is not empty, \<^verbatim>\<open>ToJSON\<close> is called: when it returns a
  document, that document is the one line added to the standard output and nothing is
  logged; when it returns an error, the error is logged and nothing is written. In
  both cases the loop goes on, and the map and what a reader finds in the store are as
  before the tick.
\<close>

theorem tick_flushes_or_skips:
  assumes "wf w"
  shows "(Empty w \<longleftrightarrow> m w = fmempty) \<and>
         (Empty w \<longrightarrow> select_case marshal w (Tick roles) = (Running, w)) \<and>
         (\<not> Empty w \<longrightarrow>
            fst (select_case marshal w (Tick roles)) = Running \<and>
            m (snd (select_case marshal w (Tick roles))) = m w \<and>
            stored (snd (select_case marshal w (Tick roles))) = stored w \<and>
            (case fst (ToJSON marshal w roles) of
               Inr data \<Rightarrow>
                 stdout (snd (select_case marshal w (Tick roles))) = stdout w @ [Payload data] \<and>
                 logged (snd (select_case marshal w (Tick roles))) = logged w
             | Inl err \<Rightarrow>
                 stdout (snd (select_case marshal w (Tick roles))) = stdout w \<and>
                 logged (snd (select_case marshal w (Tick roles))) = logged w @ [err]))"
proof -
  from select_case_Tick [OF assms, of marshal roles]
  have r: "fst (select_case marshal w (Tick roles)) = Running"
    and e: "extends w (snd (select_case marshal w (Tick roles)))"
    and so: "stdout (snd (select_case marshal w (Tick roles))) =
           (if Empty w then stdout w
            else case fst (ToJSON marshal w roles) of
                   Inl err \<Rightarrow> stdout w
                 | Inr data \<Rightarrow> stdout w @ [Payload data])"
    and lg: "logged (snd (select_case marshal w (Tick roles))) =
           (if Empty w then logged w
            else case fst (ToJSON marshal w roles) of
                   Inl err \<Rightarrow> logged w @ [err]
                 | Inr data \<Rightarrow> logged w)"
    by simp_all
  have st: "stored (snd (select_case marshal w (Tick roles))) = stored w"
    using extends_stored [OF e assms] by (intro ext)
  have mm: "m (snd (select_case marshal w (Tick roles))) = m w"
    using e by (simp add: extends_def)
  have em: "Empty w \<longrightarrow> select_case marshal w (Tick roles) = (Running, w)"
    by (simp add: select_case_def)
  show ?thesis
    using r st mm em so lg by (simp add: Empty_iff split: sum.splits)
qed

theorem tick_flushes_or_skips_witness:
  "wf empty_world \<and> Empty empty_world \<and>
   select_case json_Marshal empty_world (Tick []) = (Running, empty_world) \<and>
   wf nan_world \<and> \<not> Empty nan_world \<and>
   stdout (snd (select_case json_Marshal nan_world (Tick [''worker'']))) =
     [Payload (JArray [JObject
       [(''pid'', JInt 4242),
        (''role'', JString ''worker''),
        (''first_seen'', JTime epoch),
        (''last_seen'', JTime later),
        (''age'', JInt 600000000000),
        (''window_rate'', JFloat minus_one),
        (''standard_dev'', JFloat minus_one),
        (''lifetime_rate'', JFloat one_half),
        (''current_rate'', JFloat minus_one),
        (''times_restarted'', JInt 0),
        (''virtual_memory_bytes'', JInt 1048576),
        (''rss_bytes'', JInt 4096),
        (''rate_histogram'', JNull)]])] \<and>
   logged (snd (select_case json_Marshal nan_world (Tick [''worker'']))) = [] \<and>
   wf inf_world \<and> \<not> Empty inf_world \<and>
   stdout (snd (select_case json_Marshal inf_world (Tick [''manager'']))) = [] \<and>
   logged (snd (select_case json_Marshal inf_world (Tick [''manager'']))) = [UnsupportedValueError] \<and>
   stored (snd (select_case json_Marshal inf_world (Tick [''manager'']))) ''manager'' = Some inf_report"
proof -
  have io: "stdout nan_world = []" "logged nan_world = []" "stdout inf_world = []"
    "logged inf_world = []"
    by (simp_all add: nan_world_def inf_world_def empty_world_def)
  show ?thesis
    using tick_flushes_or_skips [OF wf_empty_world, of json_Marshal "[]"]
      tick_flushes_or_skips [OF wf_nan_world, of json_Marshal "[''worker'']"]
      tick_flushes_or_skips [OF wf_inf_world, of json_Marshal "[''manager'']"]
      wf_empty_world wf_nan_world wf_inf_world
      Empty_empty_world not_Empty_nan_world not_Empty_inf_world
    by (simp add: ToJSON_nan_world ToJSON_inf_world io stored_inf_world)
qed


section \<open>The second line of the text exposition\<close>

text \<open>
  Claim C6 says that the second of the four lines carries the first-seen timestamp.
  \<^verbatim>\<open>String\<close> never reads \<^verbatim>\<open>InitTimestamp\<close>: the line named
  \<^verbatim>\<open>bro_process_start_seconds\<close>, built in the variable \<^verbatim>\<open>first_seen\<close>, prints
  \<^verbatim>\<open>i.Timestamp.Unix()\<close>, the last-seen time. For the example report, first seen at
  1700000000 and last seen at 1700000600, the output is evaluated below.
\<close>

theorem String_start_line_is_last_seen:
  "String seconds (i\<lparr>InitTimestamp := t\<rparr>) = String seconds i \<and>
   Unix (InitTimestamp nan_report) = 1700000000 \<and>
   Unix (Timestamp nan_report) = 1700000600 \<and>
   String seconds nan_report =
     ''bro_pid{role='' @ [quote] @ ''worker'' @ [quote] @ ''} 4242'' @ [newline] @
     ''bro_process_start_seconds{role='' @ [quote] @ ''worker'' @ [quote] @ ''} 1700000600'' @ [newline] @
     ''bro_process_age_seconds{role='' @ [quote] @ ''worker'' @ [quote] @ ''} '' @
       fmt_d (seconds 600000000000) @ [newline] @
     ''bro_virtual_memory_bytes{role='' @ [quote] @ ''worker'' @ [quote] @ ''} 1048576'' @ [newline]"
  by (simp add: String_def Sprintf_metric_def fmt_d_def digit_def nan_report_def epoch_def later_def)


end
